theory Spec2Isabelle
  imports Main
begin

section \<open>The link builder of rules_go (go/tools/builders/link.go)\<close>

text \<open>
  Go strings are byte sequences, modelled as \<^typ>\<open>string\<close>. A Go \<^verbatim>\<open>error\<close> is
  modelled by its message; a result \<^verbatim>\<open>(v, err)\<close> is a sum with \<open>Inl\<close> for the
  error, and a bare \<^verbatim>\<open>error\<close> result is an option with \<open>None\<close> for \<^verbatim>\<open>nil\<close>.
\<close>

subsection \<open>Functions of package strings\<close>

text \<open>\<^verbatim>\<open>strings.IndexByte\<close>: the index of the first occurrence, \<open>None\<close> for -1.\<close>

fun IndexByte :: "string \<Rightarrow> char \<Rightarrow> nat option" where
  "IndexByte [] c = None"
| "IndexByte (x # xs) c =
     (if x = c then Some 0 else map_option Suc (IndexByte xs c))"

text \<open>\<^verbatim>\<open>strings.LastIndexByte\<close>: the index of the last occurrence, \<open>None\<close> for -1.\<close>

fun LastIndexByte :: "string \<Rightarrow> char \<Rightarrow> nat option" where
  "LastIndexByte [] c = None"
| "LastIndexByte (x # xs) c =
     (case LastIndexByte xs c of
        Some i \<Rightarrow> Some (Suc i)
      | None \<Rightarrow> (if x = c then Some 0 else None))"

text \<open>
  \<^verbatim>\<open>strings.SplitN(s, sep, n)\<close> for a one-byte separator and \<open>n \<ge> 0\<close>, after
  \<^verbatim>\<open>genSplit\<close>: the count is capped at \<open>length s + 1\<close>, at most \<open>n - 1\<close> cuts are
  made, and the rest of the string is the last piece. The result is empty only for
  \<open>n = 0\<close>.
\<close>

fun genSplit :: "string \<Rightarrow> char \<Rightarrow> nat \<Rightarrow> string list" where
  "genSplit s c 0 = [s]"
| "genSplit s c (Suc k) =
     (case IndexByte s c of
        None \<Rightarrow> [s]
      | Some m \<Rightarrow> take m s # genSplit (drop (Suc m) s) c k)"

definition SplitN :: "string \<Rightarrow> char \<Rightarrow> nat \<Rightarrow> string list" where
  "SplitN s c n = (if n = 0 then [] else genSplit s c (min n (length s + 1) - 1))"

subsection \<open>bufio.Scanner with the default split function\<close>

definition MaxScanTokenSize :: nat where
  "MaxScanTokenSize = 64 * 1024"

definition dropCR :: "string \<Rightarrow> string" where
  "dropCR data = (if data \<noteq> [] \<and> last data = CHR 0x0D then butlast data else data)"

text \<open>
  The texts that successive calls of \<^verbatim>\<open>scanner.Scan()\<close> deliver for a buffer read
  from memory. A line ends at a newline, which is dropped together with one carriage
  return before it; a last line without newline is delivered when it is not empty. A
  line that does not fit into the scanner's buffer of \<^const>\<open>MaxScanTokenSize\<close> bytes
  ends the scan (\<^verbatim>\<open>Scan\<close> returns false; the caller does not look at
  \<^verbatim>\<open>scanner.Err()\<close>).
\<close>

function scanLines :: "string \<Rightarrow> string list" where
  "scanLines buf =
     (if buf = [] then []
      else case IndexByte buf (CHR 0x0A) of
        Some i \<Rightarrow>
          (if MaxScanTokenSize \<le> i then []
           else dropCR (take i buf) # scanLines (drop (Suc i) buf))
      | None \<Rightarrow>
          (if MaxScanTokenSize \<le> length buf then [] else [dropCR buf]))"
  by pat_completeness auto
termination
  by (relation "measure length") auto

subsection \<open>The stamp table\<close>

type_synonym stampMap = "string \<rightharpoonup> string"

text \<open>The body of the scanner loop: one line of a stamp file (lines 80 to 90).\<close>

definition stampLine :: "stampMap \<Rightarrow> string \<Rightarrow> stampMap" where
  "stampLine stampMap text =
     (let line = SplitN text (CHR '' '') 2 in
      if length line = 0 then stampMap
      else if length line = 1 then stampMap(line ! 0 \<mapsto> '''')
      else if length line = 2 then stampMap(line ! 0 \<mapsto> line ! 1)
      else stampMap)"

text \<open>
  The loop over the stamp files (lines 73 to 92). \<open>ReadFile\<close> is
  \<^verbatim>\<open>ioutil.ReadFile\<close>: the contents of a file, or the error's message.
\<close>

fun readStamps ::
  "(string \<Rightarrow> string + string) \<Rightarrow> stampMap \<Rightarrow> string list \<Rightarrow> string + stampMap" where
  "readStamps ReadFile stampMap [] = Inr stampMap"
| "readStamps ReadFile stampMap (stampfile # rest) =
     (case ReadFile stampfile of
        Inl err \<Rightarrow> Inl (''Failed reading stamp file '' @ stampfile @ '': '' @ err)
      | Inr stampbuf \<Rightarrow>
          readStamps ReadFile (foldl stampLine stampMap (scanLines stampbuf)) rest)"

subsection \<open>Substitution requests\<close>

text \<open>The closure \<^verbatim>\<open>parseXdef\<close> (lines 105 to 119); \<open>packagePath\<close> is the -p flag.\<close>

definition parseXdef :: "string \<Rightarrow> string \<Rightarrow> string + (string \<times> string \<times> string)" where
  "parseXdef packagePath xdef =
     (case IndexByte xdef (CHR ''='') of
        None \<Rightarrow> Inl (''-X or -Xstamp flag does not contain '=': '' @ xdef)
      | Some eq \<Rightarrow>
          (case LastIndexByte (take eq xdef) (CHR ''.'') of
             None \<Rightarrow> Inl (''-X or -Xstamp flag does not contain '.': '' @ xdef)
           | Some dot \<Rightarrow>
               (let pkg = take dot xdef;
                    name = drop (dot + 1) (take eq xdef);
                    value = drop (eq + 1) xdef
                in Inr (if pkg = packagePath then ''main'' else pkg, name, value))))"

text \<open>
  The split as the specification words it, kept apart for comparison: the string is cut
  at the last \<open>=\<close>, and what stands before it at the last dot. Messages and the
  rewriting of the package path are those of \<^const>\<open>parseXdef\<close>.
\<close>

definition parseXdef_lastEq :: "string \<Rightarrow> string \<Rightarrow> string + (string \<times> string \<times> string)" where
  "parseXdef_lastEq packagePath xdef =
     (case LastIndexByte xdef (CHR ''='') of
        None \<Rightarrow> Inl (''-X or -Xstamp flag does not contain '=': '' @ xdef)
      | Some eq \<Rightarrow>
          (case LastIndexByte (take eq xdef) (CHR ''.'') of
             None \<Rightarrow> Inl (''-X or -Xstamp flag does not contain '.': '' @ xdef)
           | Some dot \<Rightarrow>
               (let pkg = take dot xdef;
                    name = drop (dot + 1) (take eq xdef);
                    value = drop (eq + 1) xdef
                in Inr (if pkg = packagePath then ''main'' else pkg, name, value))))"

text \<open>\<^verbatim>\<open>fmt.Sprintf("%s.%s=%s", pkg, name, value)\<close>\<close>

definition Sprintf_xdef :: "string \<Rightarrow> string \<Rightarrow> string \<Rightarrow> string" where
  "Sprintf_xdef pkg name value = pkg @ ''.'' @ name @ ''='' @ value"

text \<open>The loop over the -Xstamp flags (lines 120 to 128).\<close>

fun xstampArgs ::
  "string \<Rightarrow> stampMap \<Rightarrow> string list \<Rightarrow> string list \<Rightarrow> string + string list" where
  "xstampArgs packagePath stampMap goargs [] = Inr goargs"
| "xstampArgs packagePath stampMap goargs (xdef # rest) =
     (case parseXdef packagePath xdef of
        Inl err \<Rightarrow> Inl err
      | Inr (pkg, name, key) \<Rightarrow>
          (case stampMap key of
             Some value \<Rightarrow>
               xstampArgs packagePath stampMap
                 (goargs @ [''-X'', Sprintf_xdef pkg name value]) rest
           | None \<Rightarrow> xstampArgs packagePath stampMap goargs rest))"

text \<open>The loop over the -X flags (lines 129 to 135).\<close>

fun xdefArgs :: "string \<Rightarrow> string list \<Rightarrow> string list \<Rightarrow> string + string list" where
  "xdefArgs packagePath goargs [] = Inr goargs"
| "xdefArgs packagePath goargs (xdef # rest) =
     (case parseXdef packagePath xdef of
        Inl err \<Rightarrow> Inl err
      | Inr (pkg, name, value) \<Rightarrow>
          xdefArgs packagePath (goargs @ [''-X'', Sprintf_xdef pkg name value]) rest)"

subsection \<open>The link action\<close>

text \<open>
  The values of the flag set after \<^verbatim>\<open>flags.Parse\<close>. The type of the -arc values
  is declared in another file of the package and stays a parameter.
\<close>

record 'arc flags =
  main :: string
  packagePath :: string
  outFile :: string
  archives :: 'arc
  packageList :: string
  buildmode :: string
  xdefs :: "string list"
  xstamps :: "string list"
  stamps :: "string list"
  packageConflictIsError :: bool

text \<open>
  What \<^verbatim>\<open>link\<close> calls and does not define: the platform constant
  \<^verbatim>\<open>runtime.GOOS\<close>, the library functions \<^verbatim>\<open>ioutil.ReadFile\<close> and
  \<^verbatim>\<open>filepath.Dir\<close>, and the functions \<^verbatim>\<open>abs\<close>, \<^verbatim>\<open>buildImportcfgFileForLink\<close>,
  \<^verbatim>\<open>goenv.goTool\<close>, \<^verbatim>\<open>goenv.runCommand\<close> and \<^verbatim>\<open>stripArMetadata\<close> of other files
  of the package, with the field \<^verbatim>\<open>goenv.installSuffix\<close>. Each is a parameter; a
  call's outcome is a function of its arguments, so the file system is taken not to
  change under the action while it reads.
\<close>

record 'arc sys =
  GOOS :: string
  abs_path :: "string \<Rightarrow> string"
  ReadFile :: "string \<Rightarrow> string + string"
  Dir :: "string \<Rightarrow> string"
  installSuffix :: string
  buildImportcfgFileForLink ::
    "'arc \<Rightarrow> string \<Rightarrow> string \<Rightarrow> string \<Rightarrow> bool \<Rightarrow> string + string"
  goTool :: "string \<Rightarrow> string list"
  runCommand :: "string list \<Rightarrow> string option"
  stripArMetadata :: "string \<Rightarrow> string option"

text \<open>The calls with an effect outside the process, in the order they are made.\<close>

datatype event =
  RunCommand "string list"
| StripArMetadata string
| Remove string

text \<open>Lines 66 to 69.\<close>

definition normalizePaths :: "'arc sys \<Rightarrow> 'arc flags \<Rightarrow> 'arc flags" where
  "normalizePaths s fl =
     (let fl1 = (if GOOS s \<noteq> ''darwin''
                 then fl\<lparr>outFile := abs_path s (outFile fl)\<rparr> else fl)
      in fl1\<lparr>main := abs_path s (main fl1)\<rparr>)"

text \<open>
  Lines 101 to 155: what \<^verbatim>\<open>link\<close> does once the importcfg file exists. The result
  is the returned error with the effects made up to the return.
\<close>

definition linkWithImportcfg ::
  "'arc sys \<Rightarrow> 'arc flags \<Rightarrow> string list \<Rightarrow> stampMap \<Rightarrow> string
     \<Rightarrow> string option \<times> event list" where
  "linkWithImportcfg s fl toolArgs stampMap importcfgName =
     (let goargs = goTool s ''link'';
          goargs = goargs @ [''-importcfg'', importcfgName]
      in case xstampArgs (packagePath fl) stampMap goargs (xstamps fl) of
        Inl err \<Rightarrow> (Some err, [])
      | Inr goargs \<Rightarrow>
      (case xdefArgs (packagePath fl) goargs (xdefs fl) of
        Inl err \<Rightarrow> (Some err, [])
      | Inr goargs \<Rightarrow>
      (let goargs = (if buildmode fl \<noteq> ''''
                     then goargs @ [''-buildmode'', buildmode fl] else goargs);
           goargs = goargs @ [''-o'', outFile fl];
           goargs = goargs @ toolArgs;
           goargs = goargs @ [main fl]
       in case runCommand s goargs of
         Some err \<Rightarrow> (Some err, [RunCommand goargs])
       | None \<Rightarrow>
           (if buildmode fl = ''c-archive''
            then (case stripArMetadata s (outFile fl) of
                    Some err \<Rightarrow>
                      (Some (''error stripping archive metadata: '' @ err),
                       [RunCommand goargs, StripArMetadata (outFile fl)])
                  | None \<Rightarrow> (None, [RunCommand goargs, StripArMetadata (outFile fl)]))
            else (None, [RunCommand goargs])))))"

text \<open>
  \<^verbatim>\<open>link\<close> from line 61 on, for the parsed flags and the pass-through arguments
  that \<^verbatim>\<open>splitArgs\<close> set apart. The deferred \<^verbatim>\<open>os.Remove(importcfgName)\<close> of
  line 99 runs when the function returns, whatever the return.
\<close>

definition link :: "'arc sys \<Rightarrow> 'arc flags \<Rightarrow> string list \<Rightarrow> string option \<times> event list" where
  "link s fl0 toolArgs =
     (let fl = normalizePaths s fl0
      in case readStamps (ReadFile s) Map.empty (stamps fl) of
        Inl err \<Rightarrow> (Some err, [])
      | Inr stampMap \<Rightarrow>
      (case buildImportcfgFileForLink s (archives fl) (packageList fl) (installSuffix s)
              (Dir s (outFile fl)) (packageConflictIsError fl) of
        Inl err \<Rightarrow> (Some err, [])
      | Inr importcfgName \<Rightarrow>
          (case linkWithImportcfg s fl toolArgs stampMap importcfgName of
             (err, evs) \<Rightarrow> (err, evs @ [Remove importcfgName]))))"

subsection \<open>A sample run\<close>

text \<open>
  A system and a flag set used to run the definitions: two stamp files that both define
  the key \<open>K\<close>, a tool that succeeds, and a strip step that fails.
\<close>

definition sample_sys :: "unit sys" where
  "sample_sys =
     \<lparr>GOOS = ''linux'',
      abs_path = (\<lambda>p. ''/w/'' @ p),
      ReadFile = (\<lambda>f. if f = ''a.txt'' then Inr (''K 1'' @ [CHR 0x0A] @ ''J 2'' @ [CHR 0x0A])
                      else if f = ''b.txt'' then Inr (''K 3'' @ [CHR 0x0A])
                      else Inl ''no such file''),
      Dir = (\<lambda>p. ''/w''),
      installSuffix = '''',
      buildImportcfgFileForLink = (\<lambda>arcs pl suffix dir conflict. Inr ''/tmp/importcfg''),
      goTool = (\<lambda>tool. [''go'', ''tool'', tool]),
      runCommand = (\<lambda>args. None),
      stripArMetadata = (\<lambda>p. Some ''no archive'')\<rparr>"

definition sample_flags :: "unit flags" where
  "sample_flags =
     \<lparr>main = ''a.o'', packagePath = ''p'', outFile = ''out.a'', archives = (),
      packageList = '''', buildmode = ''c-archive'',
      xdefs = [''p.V=1''], xstamps = [''pkg/x.Ver=K'', ''pkg/x.Host=H''],
      stamps = [''a.txt'', ''b.txt''], packageConflictIsError = False\<rparr>"

declare scanLines.simps [simp del]

lemmas sample_defs = sample_sys_def sample_flags_def link_def linkWithImportcfg_def
  normalizePaths_def parseXdef_def Sprintf_xdef_def scanLines.simps stampLine_def SplitN_def
  dropCR_def MaxScanTokenSize_def


section \<open>Properties\<close>

subsection \<open>Searching a byte\<close>

lemma IndexByte_None_iff: "IndexByte s c = None \<longleftrightarrow> c \<notin> set s"
  by (induction s) auto

lemma IndexByte_append: "c \<notin> set l \<Longrightarrow> IndexByte (l @ c # r) c = Some (length l)"
  by (induction l) auto

lemma IndexByte_SomeD:
  "IndexByte s c = Some i \<Longrightarrow> s = take i s @ c # drop (Suc i) s \<and> c \<notin> set (take i s)"
proof (induction s arbitrary: i)
  case Nil
  then show ?case by simp
next
  case (Cons x xs)
  then show ?case by (cases "x = c") auto
qed

lemma LastIndexByte_None_iff: "LastIndexByte s c = None \<longleftrightarrow> c \<notin> set s"
  by (induction s) (auto split: option.splits)

lemma LastIndexByte_append: "c \<notin> set r \<Longrightarrow> LastIndexByte (l @ c # r) c = Some (length l)"
  by (induction l) (auto split: option.splits simp: LastIndexByte_None_iff)

lemma LastIndexByte_SomeD:
  "LastIndexByte s c = Some i \<Longrightarrow> s = take i s @ c # drop (Suc i) s \<and> c \<notin> set (drop (Suc i) s)"
proof (induction s arbitrary: i)
  case Nil
  then show ?case by simp
next
  case (Cons x xs)
  then show ?case
    by (cases "LastIndexByte xs c") (auto split: if_splits simp: LastIndexByte_None_iff)
qed

subsection \<open>Parsing a substitution request\<close>

lemma parseXdef_ok:
  assumes "CHR ''='' \<notin> set pkg" "CHR ''='' \<notin> set name" "CHR ''.'' \<notin> set name"
  shows "parseXdef pp (pkg @ ''.'' @ name @ ''='' @ v)
         = Inr (if pkg = pp then ''main'' else pkg, name, v)"
proof -
  let ?lhs = "pkg @ CHR ''.'' # name"
  have eq: "IndexByte (?lhs @ CHR ''='' # v) (CHR ''='') = Some (length ?lhs)"
    using assms by (intro IndexByte_append) simp
  have dot: "LastIndexByte ?lhs (CHR ''.'') = Some (length pkg)"
    using assms by (intro LastIndexByte_append) simp
  have tk: "take (length ?lhs) (?lhs @ CHR ''='' # v) = ?lhs" by simp
  show ?thesis
    using eq dot tk by (simp add: parseXdef_def del: IndexByte.simps LastIndexByte.simps)
qed

lemma parseXdef_no_eq:
  "CHR ''='' \<notin> set xdef \<Longrightarrow>
   parseXdef pp xdef = Inl (''-X or -Xstamp flag does not contain '=': '' @ xdef)"
  by (simp add: parseXdef_def IndexByte_None_iff[THEN iffD2])

lemma parseXdef_no_dot:
  assumes "CHR ''='' \<notin> set lhs" "CHR ''.'' \<notin> set lhs"
  shows "parseXdef pp (lhs @ ''='' @ v)
         = Inl (''-X or -Xstamp flag does not contain '.': '' @ lhs @ ''='' @ v)"
proof -
  have eq: "IndexByte (lhs @ CHR ''='' # v) (CHR ''='') = Some (length lhs)"
    using assms by (intro IndexByte_append) simp
  have dot: "LastIndexByte lhs (CHR ''.'') = None"
    using assms by (simp add: LastIndexByte_None_iff)
  show ?thesis
    using eq dot by (simp add: parseXdef_def del: IndexByte.simps LastIndexByte.simps)
qed

text \<open>
  C1, as the specification states it, fails: the string is cut at the first \<open>=\<close>, not
  at the last one. With two \<open>=\<close> the value keeps the second one, and a dot that stands
  only after the first \<open>=\<close> does not count.
\<close>

theorem parseXdef_last_eq_counterexample:
  "parseXdef ''p'' ''a.b=c=d'' = Inr (''a'', ''b'', ''c=d'') \<and>
   parseXdef_lastEq ''p'' ''a.b=c=d'' = Inr (''a'', ''b=c'', ''d'') \<and>
   parseXdef ''p'' ''a=b.c=d'' = Inl (''-X or -Xstamp flag does not contain '.': a=b.c=d'') \<and>
   parseXdef_lastEq ''p'' ''a=b.c=d'' = Inr (''a=b'', ''c'', ''d'')"
  by (simp add: parseXdef_def parseXdef_lastEq_def)

text \<open>
  C1, amended: \<^const>\<open>parseXdef\<close> cuts the request at its first \<open>=\<close> into a left-hand
  side and a value, and the left-hand side at its last dot into package path and symbol
  name. A request without \<open>=\<close>, or without a dot before its first \<open>=\<close>, is refused
  with a message that ends with the request.
\<close>

theorem parseXdef_first_eq:
  "(CHR ''='' \<notin> set pkg \<and> CHR ''='' \<notin> set name \<and> CHR ''.'' \<notin> set name \<longrightarrow>
      parseXdef pp (pkg @ ''.'' @ name @ ''='' @ v)
        = Inr (if pkg = pp then ''main'' else pkg, name, v)) \<and>
   (CHR ''='' \<notin> set xdef \<longrightarrow>
      parseXdef pp xdef = Inl (''-X or -Xstamp flag does not contain '=': '' @ xdef)) \<and>
   (CHR ''='' \<notin> set lhs \<and> CHR ''.'' \<notin> set lhs \<longrightarrow>
      parseXdef pp (lhs @ ''='' @ w)
        = Inl (''-X or -Xstamp flag does not contain '.': '' @ lhs @ ''='' @ w))"
  using parseXdef_ok parseXdef_no_eq parseXdef_no_dot by blast

theorem parseXdef_first_eq_witness:
  "parseXdef ''p'' ''foo/bar.Sym=val=1'' = Inr (''foo/bar'', ''Sym'', ''val=1'') \<and>
   parseXdef ''p'' ''foo/bar.Sym'' = Inl (''-X or -Xstamp flag does not contain '=': foo/bar.Sym'') \<and>
   parseXdef ''p'' ''Sym=a.b'' = Inl (''-X or -Xstamp flag does not contain '.': Sym=a.b'')"
  using parseXdef_first_eq [where pkg = "''foo/bar''" and name = "''Sym''" and pp = "''p''"
      and v = "''val=1''" and xdef = "''foo/bar.Sym''" and lhs = "''Sym''" and w = "''a.b''"]
  by simp

subsection \<open>The stamp table\<close>

text \<open>
  C5 does not hold of the code for an empty line: \<^verbatim>\<open>strings.SplitN("", " ", 2)\<close> is a
  slice of length one, so the branch for length one runs and an empty line stores the
  empty key with the empty value; the branch for length zero is never taken. Here a
  stamp file with an empty line between two entries is loaded.
\<close>

theorem stamp_empty_line_entry:
  "SplitN '''' (CHR '' '') 2 = [''''] \<and>
   scanLines (''A 1'' @ [CHR 0x0A, CHR 0x0A] @ ''B 2'' @ [CHR 0x0A]) = [''A 1'', '''', ''B 2''] \<and>
   (case readStamps (\<lambda>f. Inr (''A 1'' @ [CHR 0x0A, CHR 0x0A] @ ''B 2'' @ [CHR 0x0A]))
           Map.empty [''stamp.txt''] of
      Inl err \<Rightarrow> None | Inr m \<Rightarrow> m '''') = Some ''''"
  by (simp add: scanLines.simps stampLine_def SplitN_def dropCR_def MaxScanTokenSize_def)

lemma stampLine_add: "stampLine (m ++ n) t = m ++ stampLine n t"
  by (simp add: stampLine_def Let_def)

lemma foldl_stampLine_add: "foldl stampLine (m ++ n) ls = m ++ foldl stampLine n ls"
  by (induction ls arbitrary: n) (simp_all add: stampLine_add)

lemma readStamps_single:
  "readStamps rf Map.empty [f] = Inr t \<longleftrightarrow>
     (\<exists>buf. rf f = Inr buf \<and> t = foldl stampLine Map.empty (scanLines buf))"
  by (auto split: sum.splits)

lemma readStamps_merge:
  assumes "\<forall>f\<in>set fs. readStamps rf Map.empty [f] = Inr (T f)"
  shows "readStamps rf m fs = Inr (foldl (\<lambda>a f. a ++ T f) m fs)"
  using assms
proof (induction fs arbitrary: m)
  case Nil
  then show ?case by simp
next
  case (Cons f fs)
  from Cons.prems obtain buf where b: "rf f = Inr buf"
    and t: "T f = foldl stampLine Map.empty (scanLines buf)"
    using readStamps_single [of rf f "T f"] by auto
  have "foldl stampLine m (scanLines buf) = m ++ T f"
    using foldl_stampLine_add [of m Map.empty "scanLines buf"] t by simp
  with b Cons show ?case by simp
qed

lemma foldl_map_add_last:
  assumes "T f k = Some v" "\<forall>g\<in>set post. T g k = None"
  shows "foldl (\<lambda>a f. a ++ T f) m (pre @ f # post) k = Some v"
  using assms(2)
proof (induction post rule: rev_induct)
  case Nil
  then show ?case using assms(1) by simp
next
  case (snoc g gs)
  then show ?case by (simp add: map_add_def)
qed

text \<open>
  C4: when each of the stamp files \<open>F1 \<dots> Fn\<close>, loaded alone, gives the table
  \<open>T F\<close>, loading them in their declared order gives the table of \<open>F1\<close> overwritten
  in turn with the tables of \<open>F2 \<dots> Fn\<close>; so the value of a key is the one of the
  last file that defines it.
\<close>

theorem stamp_files_merge:
  assumes "\<forall>f\<in>set (F1 # Fs). readStamps rf Map.empty [f] = Inr (T f)"
  shows "readStamps rf Map.empty (F1 # Fs) = Inr (foldl (\<lambda>m f. m ++ T f) (T F1) Fs) \<and>
         (\<forall>pre f post k v.
            F1 # Fs = pre @ f # post \<and> T f k = Some v \<and> (\<forall>g\<in>set post. T g k = None) \<longrightarrow>
            foldl (\<lambda>m f. m ++ T f) (T F1) Fs k = Some v)"
proof (intro conjI allI impI)
  have e: "foldl (\<lambda>m f. m ++ T f) Map.empty (F1 # Fs) = foldl (\<lambda>m f. m ++ T f) (T F1) Fs"
    by simp
  have "readStamps rf Map.empty (F1 # Fs) = Inr (foldl (\<lambda>m f. m ++ T f) Map.empty (F1 # Fs))"
    using assms by (rule readStamps_merge)
  then show "readStamps rf Map.empty (F1 # Fs) = Inr (foldl (\<lambda>m f. m ++ T f) (T F1) Fs)"
    by (simp only: e)
  fix pre f post k v
  assume a: "F1 # Fs = pre @ f # post \<and> T f k = Some v \<and> (\<forall>g\<in>set post. T g k = None)"
  then have "foldl (\<lambda>m f. m ++ T f) Map.empty (pre @ f # post) k = Some v"
    by (intro foldl_map_add_last) simp_all
  with a have "foldl (\<lambda>m f. m ++ T f) Map.empty (F1 # Fs) k = Some v"
    by simp
  then show "foldl (\<lambda>m f. m ++ T f) (T F1) Fs k = Some v"
    by (simp only: e)
qed


theorem stamp_files_merge_witness:
  "readStamps (ReadFile sample_sys) Map.empty [''a.txt''] = Inr [''K'' \<mapsto> ''1'', ''J'' \<mapsto> ''2''] \<and>
   readStamps (ReadFile sample_sys) Map.empty [''b.txt''] = Inr [''K'' \<mapsto> ''3''] \<and>
   readStamps (ReadFile sample_sys) Map.empty [''a.txt'', ''b.txt'']
     = Inr ([''K'' \<mapsto> ''1'', ''J'' \<mapsto> ''2''] ++ [''K'' \<mapsto> ''3'']) \<and>
   ([''K'' \<mapsto> ''1'', ''J'' \<mapsto> ''2''] ++ [''K'' \<mapsto> ''3'']) ''K'' = Some ''3''"
proof -
  let ?T = "\<lambda>f. if f = ''a.txt'' then [''K'' \<mapsto> ''1'', ''J'' \<mapsto> ''2''] else [''K'' \<mapsto> ''3'']"
  have h: "\<forall>f\<in>set [''a.txt'', ''b.txt''].
      readStamps (ReadFile sample_sys) Map.empty [f] = Inr (?T f)"
    by (simp add: sample_defs)
  note m = stamp_files_merge [OF h]
  have 1: "readStamps (ReadFile sample_sys) Map.empty [''a.txt'', ''b.txt'']
     = Inr ([''K'' \<mapsto> ''1'', ''J'' \<mapsto> ''2''] ++ [''K'' \<mapsto> ''3''])"
    using m [THEN conjunct1] by simp
  have "foldl (\<lambda>m f. m ++ ?T f) (?T ''a.txt'') [''b.txt''] ''K'' = Some ''3''"
    using m [THEN conjunct2, rule_format, of "[''a.txt'']" "''b.txt''" "[]" "''K''" "''3''"]
    by simp
  then have 2: "([''K'' \<mapsto> ''1'', ''J'' \<mapsto> ''2''] ++ [''K'' \<mapsto> ''3'']) ''K'' = Some ''3''"
    by simp
  from h 1 2 show ?thesis by simp
qed

subsection \<open>Resolving substitution requests\<close>

lemma IndexByte_less: "IndexByte s c = Some i \<Longrightarrow> i < length s"
  by (induction s arbitrary: i) (auto split: if_splits)

lemma LastIndexByte_less: "LastIndexByte s c = Some i \<Longrightarrow> i < length s"
  by (induction s arbitrary: i) (auto split: if_splits option.splits)

lemma parseXdef_InrD:
  assumes "parseXdef pp xdef = Inr (pkg, name, value)"
  shows "\<exists>raw. xdef = raw @ ''.'' @ name @ ''='' @ value \<and>
           CHR ''='' \<notin> set raw \<and> CHR ''='' \<notin> set name \<and> CHR ''.'' \<notin> set name \<and>
           pkg = (if raw = pp then ''main'' else raw)"
proof -
  from assms obtain eq dot where eq: "IndexByte xdef (CHR ''='') = Some eq"
    and dot: "LastIndexByte (take eq xdef) (CHR ''.'') = Some dot"
    and pkg: "pkg = (if take dot xdef = pp then ''main'' else take dot xdef)"
    and name: "name = drop (dot + 1) (take eq xdef)"
    and val: "value = drop (eq + 1) xdef"
    by (auto simp: parseXdef_def Let_def split: option.splits)
  define lhs where "lhs = take eq xdef"
  define raw where "raw = take dot xdef"
  from IndexByte_SomeD [OF eq]
  have x: "xdef = lhs @ CHR ''='' # value" and noeq: "CHR ''='' \<notin> set lhs"
    unfolding lhs_def val by simp_all
  have "dot < length lhs"
    using dot unfolding lhs_def by (rule LastIndexByte_less)
  then have "dot \<le> eq" unfolding lhs_def by simp
  then have tk: "take dot lhs = raw"
    unfolding lhs_def raw_def by (simp add: min_def)
  from LastIndexByte_SomeD [OF dot]
  have "lhs = take dot lhs @ CHR ''.'' # name" and nodot: "CHR ''.'' \<notin> set name"
    unfolding lhs_def name by simp_all
  then have l: "lhs = raw @ CHR ''.'' # name"
    unfolding tk by simp
  have "xdef = raw @ ''.'' @ name @ ''='' @ value"
    using x unfolding l by simp
  moreover have "CHR ''='' \<notin> set raw" "CHR ''='' \<notin> set name"
    using noeq unfolding l by simp_all
  moreover have "pkg = (if raw = pp then ''main'' else raw)"
    using pkg unfolding raw_def .
  ultimately show ?thesis using nodot by blast
qed


text \<open>
  C2: when every -Xstamp request parses (into package \<open>P x\<close>, symbol \<open>N x\<close> and key
  \<open>K x\<close>), the loop returns without error, and what it appends to the argument list
  is, request by request in their order, nothing when the key is absent from the stamp
  table and the one argument pair \<open>-X pkg.sym=value\<close> with the table's value when it is
  present.
\<close>

theorem xstamp_resolution:
  assumes "\<forall>x\<in>set xs. parseXdef pp x = Inr (P x, N x, K x)"
  shows "xstampArgs pp sm goargs xs =
           Inr (goargs @ concat (map (\<lambda>x. case sm (K x) of
                                            None \<Rightarrow> []
                                          | Some v \<Rightarrow> [''-X'', P x @ ''.'' @ N x @ ''='' @ v]) xs))"
  using assms
proof (induction xs arbitrary: goargs)
  case Nil
  then show ?case by simp
next
  case (Cons x xs)
  then show ?case
    by (cases "sm (K x)") (simp_all add: Sprintf_xdef_def)
qed

theorem xstamp_resolution_witness:
  "parseXdef ''p'' ''pkg/x.Ver=K'' = Inr (''pkg/x'', ''Ver'', ''K'') \<and>
   parseXdef ''p'' ''pkg/x.Host=H'' = Inr (''pkg/x'', ''Host'', ''H'') \<and>
   xstampArgs ''p'' [''K'' \<mapsto> ''3''] [''link''] [''pkg/x.Ver=K'', ''pkg/x.Host=H'']
     = Inr [''link'', ''-X'', ''pkg/x.Ver=3'']"
proof -
  have h: "\<forall>x\<in>set [''pkg/x.Ver=K'', ''pkg/x.Host=H''].
      parseXdef ''p'' x = Inr ((\<lambda>x. ''pkg/x'') x, (\<lambda>x. if x = ''pkg/x.Ver=K'' then ''Ver'' else ''Host'') x,
                                (\<lambda>x. if x = ''pkg/x.Ver=K'' then ''K'' else ''H'') x)"
    by (simp add: parseXdef_def)
  have "xstampArgs ''p'' [''K'' \<mapsto> ''3''] [''link''] [''pkg/x.Ver=K'', ''pkg/x.Host=H'']
     = Inr [''link'', ''-X'', ''pkg/x.Ver=3'']"
    using xstamp_resolution [OF h, of "[''K'' \<mapsto> ''3'']" "[''link'']"]
    by (simp del: xstampArgs.simps)
  with h show ?thesis by simp
qed

text \<open>
  C9: a request that parses has the form \<open>raw.name=value\<close>, and the package path that
  is returned, and forwarded by both loops, is \<open>main\<close> when \<open>raw\<close> is the package
  path of the -p flag, and \<open>raw\<close> itself otherwise.
\<close>

theorem own_package_rewritten_to_main:
  assumes "parseXdef pp xdef = Inr (pkg, name, value)"
  shows "\<exists>raw. xdef = raw @ ''.'' @ name @ ''='' @ value \<and>
           CHR ''='' \<notin> set raw \<and> CHR ''='' \<notin> set name \<and> CHR ''.'' \<notin> set name \<and>
           pkg = (if raw = pp then ''main'' else raw) \<and>
           xdefArgs pp goargs [xdef] =
             Inr (goargs @ [''-X'', (if raw = pp then ''main'' else raw) @ ''.'' @ name @ ''='' @ value]) \<and>
           (\<forall>v. sm value = Some v \<longrightarrow>
              xstampArgs pp sm goargs [xdef] =
                Inr (goargs @ [''-X'', (if raw = pp then ''main'' else raw) @ ''.'' @ name @ ''='' @ v]))"
proof -
  from parseXdef_InrD [OF assms] obtain raw where
    r: "xdef = raw @ ''.'' @ name @ ''='' @ value"
       "CHR ''='' \<notin> set raw" "CHR ''='' \<notin> set name" "CHR ''.'' \<notin> set name"
       "pkg = (if raw = pp then ''main'' else raw)"
    by blast
  have a: "xdefArgs pp goargs [xdef] = Inr (goargs @ [''-X'', pkg @ ''.'' @ name @ ''='' @ value])"
    using assms by (simp add: Sprintf_xdef_def)
  have b: "xstampArgs pp sm goargs [xdef] = Inr (goargs @ [''-X'', pkg @ ''.'' @ name @ ''='' @ v])"
    if "sm value = Some v" for v
    using assms that by (simp add: Sprintf_xdef_def)
  show ?thesis
    using r a b unfolding r(5) by blast
qed

theorem own_package_rewritten_to_main_witness:
  "parseXdef ''bar'' ''bar.Sym=val'' = Inr (''main'', ''Sym'', ''val'') \<and>
   xdefArgs ''bar'' [''link''] [''bar.Sym=val''] = Inr [''link'', ''-X'', ''main.Sym=val''] \<and>
   [''val'' \<mapsto> ''7''] ''val'' = Some ''7'' \<and>
   xstampArgs ''bar'' [''val'' \<mapsto> ''7''] [''link''] [''bar.Sym=val'']
     = Inr [''link'', ''-X'', ''main.Sym=7'']"
proof -
  have h: "parseXdef ''bar'' ''bar.Sym=val'' = Inr (''main'', ''Sym'', ''val'')"
    by (simp add: parseXdef_def)
  from own_package_rewritten_to_main [OF h, of "[''link'']" "[''val'' \<mapsto> ''7'']"]
  obtain raw where x: "''bar.Sym=val'' = raw @ ''.'' @ ''Sym'' @ ''='' @ ''val''"
    and d: "xdefArgs ''bar'' [''link''] [''bar.Sym=val''] =
             Inr ([''link''] @ [''-X'', (if raw = ''bar'' then ''main'' else raw) @ ''.'' @ ''Sym'' @ ''='' @ ''val''])"
    and s: "\<forall>v. [''val'' \<mapsto> ''7''] ''val'' = Some v \<longrightarrow>
              xstampArgs ''bar'' [''val'' \<mapsto> ''7''] [''link''] [''bar.Sym=val''] =
                Inr ([''link''] @ [''-X'', (if raw = ''bar'' then ''main'' else raw) @ ''.'' @ ''Sym'' @ ''='' @ v])"
    by blast
  have "''bar'' @ ''.Sym=val'' = raw @ ''.Sym=val''"
    using x by simp
  then have raw: "raw = ''bar''"
    by (simp only: append_same_eq)
  have k: "[''val'' \<mapsto> ''7''] ''val'' = Some ''7''" by simp
  from s k have s': "xstampArgs ''bar'' [''val'' \<mapsto> ''7''] [''link''] [''bar.Sym=val''] =
                Inr ([''link''] @ [''-X'', (if raw = ''bar'' then ''main'' else raw) @ ''.'' @ ''Sym'' @ ''='' @ ''7''])"
    by blast
  show ?thesis
    using h d s' k unfolding raw by (simp del: xdefArgs.simps xstampArgs.simps)
qed

text \<open>
  C10: with the -p flag at its default, the empty string, a request that starts with
  the dot has the empty package path, which equals the flag's value, and is forwarded
  for the package \<open>main\<close>.
\<close>

theorem empty_package_rewritten_to_main:
  assumes "CHR ''='' \<notin> set name" "CHR ''.'' \<notin> set name"
  shows "parseXdef '''' (''.'' @ name @ ''='' @ v) = Inr (''main'', name, v) \<and>
         xdefArgs '''' goargs [''.'' @ name @ ''='' @ v]
           = Inr (goargs @ [''-X'', ''main.'' @ name @ ''='' @ v])"
proof -
  have p: "parseXdef '''' ('''' @ ''.'' @ name @ ''='' @ v) = Inr (''main'', name, v)"
    using assms by (subst parseXdef_ok) simp_all
  then have p': "parseXdef '''' (''.'' @ name @ ''='' @ v) = Inr (''main'', name, v)"
    by simp
  then show ?thesis
    by (simp add: Sprintf_xdef_def del: append.simps)
qed

theorem empty_package_rewritten_to_main_witness:
  "CHR ''='' \<notin> set ''Sym'' \<and> CHR ''.'' \<notin> set ''Sym'' \<and>
   parseXdef '''' ''.Sym=val'' = Inr (''main'', ''Sym'', ''val'') \<and>
   xdefArgs '''' [] [''.Sym=val''] = Inr [''-X'', ''main.Sym=val'']"
  using empty_package_rewritten_to_main [of "''Sym''" "''val''" "[]"]
  by (simp del: xdefArgs.simps)

subsection \<open>The link action\<close>

lemma normalizePaths_fields [simp]:
  "packagePath (normalizePaths s fl) = packagePath fl"
  "archives (normalizePaths s fl) = archives fl"
  "packageList (normalizePaths s fl) = packageList fl"
  "buildmode (normalizePaths s fl) = buildmode fl"
  "xdefs (normalizePaths s fl) = xdefs fl"
  "xstamps (normalizePaths s fl) = xstamps fl"
  "stamps (normalizePaths s fl) = stamps fl"
  "packageConflictIsError (normalizePaths s fl) = packageConflictIsError fl"
  "main (normalizePaths s fl) = abs_path s (main fl)"
  "outFile (normalizePaths s fl) = (if GOOS s = ''darwin'' then outFile fl else abs_path s (outFile fl))"
  by (simp_all add: normalizePaths_def Let_def)

lemma xstampArgs_Inr:
  "xstampArgs pp sm goargs xs = Inr out \<Longrightarrow>
   out = goargs @ concat (map (\<lambda>x. case parseXdef pp x of
                                      Inl err \<Rightarrow> []
                                    | Inr (pkg, name, key) \<Rightarrow>
                                        (case sm key of
                                           None \<Rightarrow> []
                                         | Some v \<Rightarrow> [''-X'', pkg @ ''.'' @ name @ ''='' @ v])) xs)"
proof (induction xs arbitrary: goargs)
  case Nil
  then show ?case by simp
next
  case (Cons x xs)
  from Cons.prems show ?case
    by (auto simp: Sprintf_xdef_def split: sum.splits option.splits dest!: Cons.IH)
qed

lemma xdefArgs_Inr:
  "xdefArgs pp goargs xs = Inr out \<Longrightarrow>
   out = goargs @ concat (map (\<lambda>x. case parseXdef pp x of
                                      Inl err \<Rightarrow> []
                                    | Inr (pkg, name, v) \<Rightarrow> [''-X'', pkg @ ''.'' @ name @ ''='' @ v]) xs)"
proof (induction xs arbitrary: goargs)
  case Nil
  then show ?case by simp
next
  case (Cons x xs)
  from Cons.prems show ?case
    by (auto simp: Sprintf_xdef_def split: sum.splits dest!: Cons.IH)
qed

lemma linkWithImportcfg_shape:
  assumes "linkWithImportcfg s fl toolArgs sm name = (err, evs)"
  shows "(evs = [] \<and> err \<noteq> None) \<or>
         (\<exists>args. evs = [RunCommand args] \<and> runCommand s args \<noteq> None \<and> err = runCommand s args) \<or>
         (\<exists>args. evs = [RunCommand args] \<and> runCommand s args = None \<and>
            buildmode fl \<noteq> ''c-archive'' \<and> err = None) \<or>
         (\<exists>args. evs = [RunCommand args, StripArMetadata (outFile fl)] \<and> runCommand s args = None \<and>
            buildmode fl = ''c-archive'' \<and>
            err = map_option (\<lambda>e. ''error stripping archive metadata: '' @ e)
                    (stripArMetadata s (outFile fl)))"
  using assms unfolding linkWithImportcfg_def Let_def
  by (auto split: sum.splits option.splits if_splits)

lemma linkWithImportcfg_args:
  assumes "linkWithImportcfg s fl toolArgs sm name = (err, evs)" "RunCommand args \<in> set evs"
  shows "args = goTool s ''link'' @ [''-importcfg'', name]
           @ concat (map (\<lambda>x. case parseXdef (packagePath fl) x of
                                 Inl err \<Rightarrow> []
                               | Inr (pkg, name, key) \<Rightarrow>
                                   (case sm key of
                                      None \<Rightarrow> []
                                    | Some v \<Rightarrow> [''-X'', pkg @ ''.'' @ name @ ''='' @ v])) (xstamps fl))
           @ concat (map (\<lambda>x. case parseXdef (packagePath fl) x of
                                 Inl err \<Rightarrow> []
                               | Inr (pkg, name, v) \<Rightarrow> [''-X'', pkg @ ''.'' @ name @ ''='' @ v]) (xdefs fl))
           @ (if buildmode fl \<noteq> '''' then [''-buildmode'', buildmode fl] else [])
           @ [''-o'', outFile fl] @ toolArgs @ [main fl]"
proof -
  from assms obtain g1 g2 where
    g1: "xstampArgs (packagePath fl) sm (goTool s ''link'' @ [''-importcfg'', name]) (xstamps fl) = Inr g1"
    and g2: "xdefArgs (packagePath fl) g1 (xdefs fl) = Inr g2"
    unfolding linkWithImportcfg_def Let_def
    by (auto split: sum.splits)
  have "args = g2 @ (if buildmode fl \<noteq> '''' then [''-buildmode'', buildmode fl] else [])
           @ [''-o'', outFile fl] @ toolArgs @ [main fl]"
    using assms g1 g2 unfolding linkWithImportcfg_def Let_def
    by (auto split: option.splits if_splits)
  then show ?thesis
    unfolding xdefArgs_Inr [OF g2] xstampArgs_Inr [OF g1] by simp
qed

lemma link_cases:
  assumes "link s fl toolArgs = (err, evs)"
  shows "(evs = [] \<and> err \<noteq> None) \<or>
         (\<exists>sm name evs'.
            readStamps (ReadFile s) Map.empty (stamps fl) = Inr sm \<and>
            buildImportcfgFileForLink s (archives fl) (packageList fl) (installSuffix s)
              (Dir s (outFile (normalizePaths s fl))) (packageConflictIsError fl) = Inr name \<and>
            linkWithImportcfg s (normalizePaths s fl) toolArgs sm name = (err, evs') \<and>
            evs = evs' @ [Remove name])"
  using assms unfolding link_def Let_def
  by (auto split: sum.splits prod.splits simp del: normalizePaths_fields(10))

text \<open>
  C3: in a run that returns no error, the first effect is the call of the tool, and its
  argument list is, in this order: the tool prefix, \<open>-importcfg\<close> with the name of the
  importcfg file, for each -Xstamp request in its order the pair \<open>-X pkg.sym=value\<close>
  when its key is in the stamp table, for each -X request in its order the pair
  \<open>-X pkg.sym=value\<close>, \<open>-buildmode\<close> with the mode when the mode is not empty,
  \<open>-o\<close> with the output path, the pass-through arguments as they were given, and the
  path of the main archive made absolute.
\<close>

theorem link_argument_order:
  assumes "link s fl toolArgs = (None, evs)"
  shows "\<exists>sm importcfgName rest.
           readStamps (ReadFile s) Map.empty (stamps fl) = Inr sm \<and>
           buildImportcfgFileForLink s (archives fl) (packageList fl) (installSuffix s)
             (Dir s (if GOOS s = ''darwin'' then outFile fl else abs_path s (outFile fl)))
             (packageConflictIsError fl) = Inr importcfgName \<and>
           evs = RunCommand
                  (goTool s ''link'' @ [''-importcfg'', importcfgName]
                   @ concat (map (\<lambda>x. case parseXdef (packagePath fl) x of
                                         Inl err \<Rightarrow> []
                                       | Inr (pkg, name, key) \<Rightarrow>
                                           (case sm key of
                                              None \<Rightarrow> []
                                            | Some v \<Rightarrow> [''-X'', pkg @ ''.'' @ name @ ''='' @ v]))
                               (xstamps fl))
                   @ concat (map (\<lambda>x. case parseXdef (packagePath fl) x of
                                         Inl err \<Rightarrow> []
                                       | Inr (pkg, name, v) \<Rightarrow> [''-X'', pkg @ ''.'' @ name @ ''='' @ v])
                               (xdefs fl))
                   @ (if buildmode fl \<noteq> '''' then [''-buildmode'', buildmode fl] else [])
                   @ [''-o'', if GOOS s = ''darwin'' then outFile fl else abs_path s (outFile fl)]
                   @ toolArgs
                   @ [abs_path s (main fl)]) # rest"
proof -
  from link_cases [OF assms] obtain sm name evs' where
    st: "readStamps (ReadFile s) Map.empty (stamps fl) = Inr sm"
    and cfg: "buildImportcfgFileForLink s (archives fl) (packageList fl) (installSuffix s)
              (Dir s (outFile (normalizePaths s fl))) (packageConflictIsError fl) = Inr name"
    and l: "linkWithImportcfg s (normalizePaths s fl) toolArgs sm name = (None, evs')"
    and evs: "evs = evs' @ [Remove name]"
    by auto
  from linkWithImportcfg_shape [OF l] obtain args rest' where e': "evs' = RunCommand args # rest'"
    by auto
  then have "RunCommand args \<in> set evs'" by simp
  from linkWithImportcfg_args [OF l this] e' evs st cfg show ?thesis
    by simp
qed

theorem link_argument_order_witness:
  "link sample_sys (sample_flags\<lparr>buildmode := ''pie''\<rparr>) [''-s''] =
  (None,
   [RunCommand [''go'', ''tool'', ''link'', ''-importcfg'', ''/tmp/importcfg'',
      ''-X'', ''pkg/x.Ver=3'', ''-X'', ''main.V=1'', ''-buildmode'', ''pie'',
      ''-o'', ''/w/out.a'', ''-s'', ''/w/a.o''],
    Remove ''/tmp/importcfg''])"
proof -
  have h: "link sample_sys (sample_flags\<lparr>buildmode := ''pie''\<rparr>) [''-s''] =
   (None,
    [RunCommand [''go'', ''tool'', ''link'', ''-importcfg'', ''/tmp/importcfg'',
       ''-X'', ''pkg/x.Ver=3'', ''-X'', ''main.V=1'', ''-buildmode'', ''pie'',
       ''-o'', ''/w/out.a'', ''-s'', ''/w/a.o''],
     Remove ''/tmp/importcfg''])"
    by (simp add: sample_defs)
  from link_argument_order [OF h] h show ?thesis
    by blast
qed


text \<open>
  C6: once the stamp files are read and the importcfg file is created, the removal of
  that file is the last effect of the action whatever it returns (a parse error of a
  request, a failure of the tool, a failure of the strip step, success), and it is the
  only removal.
\<close>

theorem importcfg_removed_on_every_return:
  assumes "readStamps (ReadFile s) Map.empty (stamps fl) = Inr sm"
    and "buildImportcfgFileForLink s (archives fl) (packageList fl) (installSuffix s)
             (Dir s (if GOOS s = ''darwin'' then outFile fl else abs_path s (outFile fl)))
             (packageConflictIsError fl) = Inr importcfgName"
  shows "\<exists>evs. snd (link s fl toolArgs) = evs @ [Remove importcfgName] \<and>
               (\<forall>n. Remove n \<notin> set evs)"
proof -
  obtain err evs' where l: "linkWithImportcfg s (normalizePaths s fl) toolArgs sm importcfgName = (err, evs')"
    by (cases "linkWithImportcfg s (normalizePaths s fl) toolArgs sm importcfgName")
  have "snd (link s fl toolArgs) = evs' @ [Remove importcfgName]"
    using assms l unfolding link_def Let_def by simp
  moreover have "\<forall>n. Remove n \<notin> set evs'"
    using linkWithImportcfg_shape [OF l] by auto
  ultimately show ?thesis by blast
qed

theorem importcfg_removed_on_every_return_witness:
  "readStamps (ReadFile sample_sys) Map.empty (stamps sample_flags)
     = Inr [''J'' \<mapsto> ''2'', ''K'' \<mapsto> ''3''] \<and>
   buildImportcfgFileForLink sample_sys (archives sample_flags) (packageList sample_flags)
     (installSuffix sample_sys)
     (Dir sample_sys (if GOOS sample_sys = ''darwin'' then outFile sample_flags
                      else abs_path sample_sys (outFile sample_flags)))
     (packageConflictIsError sample_flags) = Inr ''/tmp/importcfg'' \<and>
   fst (link sample_sys sample_flags [''-s''])
     = Some ''error stripping archive metadata: no archive'' \<and>
   last (snd (link sample_sys sample_flags [''-s''])) = Remove ''/tmp/importcfg''"
proof -
  have h1: "readStamps (ReadFile sample_sys) Map.empty (stamps sample_flags)
     = Inr [''J'' \<mapsto> ''2'', ''K'' \<mapsto> ''3'']"
    by (simp add: sample_defs)
  have h2: "buildImportcfgFileForLink sample_sys (archives sample_flags) (packageList sample_flags)
     (installSuffix sample_sys)
     (Dir sample_sys (if GOOS sample_sys = ''darwin'' then outFile sample_flags
                      else abs_path sample_sys (outFile sample_flags)))
     (packageConflictIsError sample_flags) = Inr ''/tmp/importcfg''"
    by (simp add: sample_sys_def)
  from importcfg_removed_on_every_return [OF h1 h2, of "[''-s'']"]
  obtain evs where "snd (link sample_sys sample_flags [''-s'']) = evs @ [Remove ''/tmp/importcfg'']"
    by blast
  then have l: "last (snd (link sample_sys sample_flags [''-s''])) = Remove ''/tmp/importcfg''"
    by simp
  have e: "fst (link sample_sys sample_flags [''-s''])
     = Some ''error stripping archive metadata: no archive''"
    by (simp add: sample_defs)
  from h1 h2 l e show ?thesis by blast
qed

text \<open>
  C7: the strip step runs when and only when the build mode is \<open>c-archive\<close> and the
  tool was called and succeeded; when it runs it runs once, right after the call of the
  tool and before the removal of the importcfg file. Its failure is returned with the
  prefix \<open>error stripping archive metadata:\<close>, while a failure of the tool is returned
  as the tool's own error.
\<close>

theorem strip_only_for_c_archive:
  assumes "link s fl toolArgs = (err, evs)"
  shows "((\<exists>p. StripArMetadata p \<in> set evs) \<longleftrightarrow>
            buildmode fl = ''c-archive'' \<and>
            (\<exists>args. RunCommand args \<in> set evs \<and> runCommand s args = None)) \<and>
         (\<forall>p. StripArMetadata p \<in> set evs \<longrightarrow>
            (\<exists>args n. evs = [RunCommand args, StripArMetadata p, Remove n])) \<and>
         (\<forall>p e. StripArMetadata p \<in> set evs \<and> stripArMetadata s p = Some e \<longrightarrow>
            err = Some (''error stripping archive metadata: '' @ e)) \<and>
         (\<forall>args e. RunCommand args \<in> set evs \<and> runCommand s args = Some e \<longrightarrow> err = Some e)"
proof -
  from link_cases [OF assms] show ?thesis
  proof
    assume "evs = [] \<and> err \<noteq> None"
    then show ?thesis by simp
  next
    assume "\<exists>sm name evs'.
            readStamps (ReadFile s) Map.empty (stamps fl) = Inr sm \<and>
            buildImportcfgFileForLink s (archives fl) (packageList fl) (installSuffix s)
              (Dir s (outFile (normalizePaths s fl))) (packageConflictIsError fl) = Inr name \<and>
            linkWithImportcfg s (normalizePaths s fl) toolArgs sm name = (err, evs') \<and>
            evs = evs' @ [Remove name]"
    then obtain sm name evs' where
      l: "linkWithImportcfg s (normalizePaths s fl) toolArgs sm name = (err, evs')"
      and evs: "evs = evs' @ [Remove name]"
      by blast
    from linkWithImportcfg_shape [OF l] consider
      (early) "evs' = []" "err \<noteq> None"
      | (failed) args where "evs' = [RunCommand args]" "runCommand s args \<noteq> None"
          "err = runCommand s args"
      | (plain) args where "evs' = [RunCommand args]" "runCommand s args = None"
          "buildmode fl \<noteq> ''c-archive''" "err = None"
      | (strip) args where
          "evs' = [RunCommand args, StripArMetadata (outFile (normalizePaths s fl))]"
          "runCommand s args = None" "buildmode fl = ''c-archive''"
          "err = map_option (\<lambda>e. ''error stripping archive metadata: '' @ e)
                   (stripArMetadata s (outFile (normalizePaths s fl)))"
      by auto
    then show ?thesis
    proof cases
      case early
      then show ?thesis unfolding evs by simp
    next
      case failed
      then show ?thesis unfolding evs by auto
    next
      case plain
      then show ?thesis unfolding evs by auto
    next
      case strip
      then show ?thesis unfolding evs by auto
    qed
  qed
qed

theorem strip_only_for_c_archive_witness:
  "link sample_sys sample_flags [''-s''] =
     (Some ''error stripping archive metadata: no archive'',
      [RunCommand [''go'', ''tool'', ''link'', ''-importcfg'', ''/tmp/importcfg'',
         ''-X'', ''pkg/x.Ver=3'', ''-X'', ''main.V=1'', ''-buildmode'', ''c-archive'',
         ''-o'', ''/w/out.a'', ''-s'', ''/w/a.o''],
       StripArMetadata ''/w/out.a'', Remove ''/tmp/importcfg'']) \<and>
   buildmode sample_flags = ''c-archive'' \<and>
   stripArMetadata sample_sys ''/w/out.a'' = Some ''no archive'' \<and>
   runCommand sample_sys [''go'', ''tool'', ''link'', ''-importcfg'', ''/tmp/importcfg'',
         ''-X'', ''pkg/x.Ver=3'', ''-X'', ''main.V=1'', ''-buildmode'', ''c-archive'',
         ''-o'', ''/w/out.a'', ''-s'', ''/w/a.o''] = None"
proof -
  let ?args = "[''go'', ''tool'', ''link'', ''-importcfg'', ''/tmp/importcfg'',
         ''-X'', ''pkg/x.Ver=3'', ''-X'', ''main.V=1'', ''-buildmode'', ''c-archive'',
         ''-o'', ''/w/out.a'', ''-s'', ''/w/a.o'']"
  let ?evs = "[RunCommand ?args, StripArMetadata ''/w/out.a'', Remove ''/tmp/importcfg'']"
  have h: "link sample_sys sample_flags [''-s''] =
     (Some ''error stripping archive metadata: no archive'', ?evs)"
    by (simp add: sample_defs)
  have s: "StripArMetadata ''/w/out.a'' \<in> set ?evs" by simp
  note t = strip_only_for_c_archive [OF h]
  from t s have "buildmode sample_flags = ''c-archive'' \<and>
      (\<exists>args. RunCommand args \<in> set ?evs \<and> runCommand sample_sys args = None)"
    by blast
  then have b: "buildmode sample_flags = ''c-archive''"
    and r: "runCommand sample_sys ?args = None"
    by simp_all
  have f: "stripArMetadata sample_sys ''/w/out.a'' = Some ''no archive''"
    by (simp add: sample_sys_def)
  from h b r f show ?thesis by blast
qed

text \<open>
  C8: whatever the platform, the path of the main archive that the tool receives is
  \<^verbatim>\<open>abs\<close> of the -main flag; the output path that the tool and the strip step
  receive is \<^verbatim>\<open>abs\<close> of the -o flag unless \<^verbatim>\<open>runtime.GOOS\<close> is \<open>darwin\<close>, where it
  is the -o flag as given.
\<close>

theorem link_paths_normalized:
  assumes "link s fl toolArgs = (err, evs)"
  shows "(\<forall>args. RunCommand args \<in> set evs \<longrightarrow>
            (\<exists>pre. args = pre
               @ [''-o'', if GOOS s = ''darwin'' then outFile fl else abs_path s (outFile fl)]
               @ toolArgs @ [abs_path s (main fl)])) \<and>
         (\<forall>p. StripArMetadata p \<in> set evs \<longrightarrow>
            p = (if GOOS s = ''darwin'' then outFile fl else abs_path s (outFile fl)))"
proof -
  from link_cases [OF assms] show ?thesis
  proof
    assume "evs = [] \<and> err \<noteq> None"
    then show ?thesis by simp
  next
    assume "\<exists>sm name evs'.
            readStamps (ReadFile s) Map.empty (stamps fl) = Inr sm \<and>
            buildImportcfgFileForLink s (archives fl) (packageList fl) (installSuffix s)
              (Dir s (outFile (normalizePaths s fl))) (packageConflictIsError fl) = Inr name \<and>
            linkWithImportcfg s (normalizePaths s fl) toolArgs sm name = (err, evs') \<and>
            evs = evs' @ [Remove name]"
    then obtain sm name evs' where
      l: "linkWithImportcfg s (normalizePaths s fl) toolArgs sm name = (err, evs')"
      and evs: "evs = evs' @ [Remove name]"
      by blast
    have a: "\<exists>pre. args = pre
               @ [''-o'', if GOOS s = ''darwin'' then outFile fl else abs_path s (outFile fl)]
               @ toolArgs @ [abs_path s (main fl)]"
      if "RunCommand args \<in> set evs" for args
    proof -
      from that have "RunCommand args \<in> set evs'" unfolding evs by simp
      from linkWithImportcfg_args [OF l this] show ?thesis
        by (simp only: normalizePaths_fields append_assoc [symmetric]) blast
    qed
    have b: "p = (if GOOS s = ''darwin'' then outFile fl else abs_path s (outFile fl))"
      if "StripArMetadata p \<in> set evs" for p
      using linkWithImportcfg_shape [OF l] that unfolding evs by auto
    from a b show ?thesis by blast
  qed
qed

theorem link_paths_normalized_witness:
  "link sample_sys sample_flags [''-s''] =
     (Some ''error stripping archive metadata: no archive'',
      [RunCommand [''go'', ''tool'', ''link'', ''-importcfg'', ''/tmp/importcfg'',
         ''-X'', ''pkg/x.Ver=3'', ''-X'', ''main.V=1'', ''-buildmode'', ''c-archive'',
         ''-o'', ''/w/out.a'', ''-s'', ''/w/a.o''],
       StripArMetadata ''/w/out.a'', Remove ''/tmp/importcfg'']) \<and>
   ''/w/out.a'' = (if GOOS sample_sys = ''darwin'' then outFile sample_flags
                   else abs_path sample_sys (outFile sample_flags)) \<and>
   link (sample_sys\<lparr>GOOS := ''darwin''\<rparr>) sample_flags [''-s''] =
     (Some ''error stripping archive metadata: no archive'',
      [RunCommand [''go'', ''tool'', ''link'', ''-importcfg'', ''/tmp/importcfg'',
         ''-X'', ''pkg/x.Ver=3'', ''-X'', ''main.V=1'', ''-buildmode'', ''c-archive'',
         ''-o'', ''out.a'', ''-s'', ''/w/a.o''],
       StripArMetadata ''out.a'', Remove ''/tmp/importcfg'']) \<and>
   ''out.a'' = (if GOOS (sample_sys\<lparr>GOOS := ''darwin''\<rparr>) = ''darwin'' then outFile sample_flags
                else abs_path (sample_sys\<lparr>GOOS := ''darwin''\<rparr>) (outFile sample_flags))"
proof -
  let ?l = "[RunCommand [''go'', ''tool'', ''link'', ''-importcfg'', ''/tmp/importcfg'',
         ''-X'', ''pkg/x.Ver=3'', ''-X'', ''main.V=1'', ''-buildmode'', ''c-archive'',
         ''-o'', ''/w/out.a'', ''-s'', ''/w/a.o''],
       StripArMetadata ''/w/out.a'', Remove ''/tmp/importcfg'']"
  let ?d = "[RunCommand [''go'', ''tool'', ''link'', ''-importcfg'', ''/tmp/importcfg'',
         ''-X'', ''pkg/x.Ver=3'', ''-X'', ''main.V=1'', ''-buildmode'', ''c-archive'',
         ''-o'', ''out.a'', ''-s'', ''/w/a.o''],
       StripArMetadata ''out.a'', Remove ''/tmp/importcfg'']"
  have h: "link sample_sys sample_flags [''-s''] =
     (Some ''error stripping archive metadata: no archive'', ?l)"
    by (simp add: sample_defs)
  have hd: "link (sample_sys\<lparr>GOOS := ''darwin''\<rparr>) sample_flags [''-s''] =
     (Some ''error stripping archive metadata: no archive'', ?d)"
    by (simp add: sample_defs)
  have "StripArMetadata ''/w/out.a'' \<in> set ?l" by simp
  with link_paths_normalized [OF h]
  have 1: "''/w/out.a'' = (if GOOS sample_sys = ''darwin'' then outFile sample_flags
                   else abs_path sample_sys (outFile sample_flags))"
    by blast
  have "StripArMetadata ''out.a'' \<in> set ?d" by simp
  with link_paths_normalized [OF hd]
  have 2: "''out.a'' = (if GOOS (sample_sys\<lparr>GOOS := ''darwin''\<rparr>) = ''darwin'' then outFile sample_flags
                else abs_path (sample_sys\<lparr>GOOS := ''darwin''\<rparr>) (outFile sample_flags))"
    by blast
  from h hd 1 2 show ?thesis by blast
qed

end
